theory Spec2Isabelle
  imports Main "HOL-Library.Word" "HOL-Library.Signed_Division"
begin

unbundle bit_operations_syntax

section \<open>Machine types of the kernel and of the host\<close>

text \<open>
  The OpenCL C types of \<^verbatim>\<open>Source.cpp\<close>: \<^verbatim>\<open>uchar\<close> is an unsigned 8-bit integer,
  \<^verbatim>\<open>int\<close> (and \<^verbatim>\<open>cl_int\<close>) a 32-bit two's complement integer, read with \<open>sint\<close>,
  \<^verbatim>\<open>size_t\<close> an unsigned 64-bit integer. \<^verbatim>\<open>uchar4\<close> is a vector of four \<^verbatim>\<open>uchar\<close>
  with the components \<^verbatim>\<open>.x .y .z .w\<close>, stored at increasing addresses.
\<close>

type_synonym uchar = "8 word"
type_synonym int32 = "32 word"
type_synonym size_t = "64 word"

datatype uchar4 = uchar4 (comp_x: uchar) (comp_y: uchar) (comp_z: uchar) (comp_w: uchar)

text \<open>
  The division of two \<^verbatim>\<open>int\<close> operands truncates toward zero (\<open>sdiv\<close> on \<open>int\<close>), and
  the quotient is again an \<^verbatim>\<open>int\<close>.
\<close>

definition int32_div :: "int32 \<Rightarrow> int32 \<Rightarrow> int32" where
  "int32_div a b = word_of_int (sint a sdiv sint b)"

section \<open>Device memory\<close>

text \<open>
  Global memory is a store from buffer handles (\<^verbatim>\<open>cl_mem\<close>) to the bytes of the buffer. A
  kernel argument of type \<^verbatim>\<open>__global uchar4*\<close> is such a handle; element \<open>index\<close> of
  it is the four bytes from \<open>4 * index\<close> on. The kernel does not test its index. An access
  through a handle that names no buffer, at a negative index or past the end of the buffer is
  undefined behaviour: the device may stop the work-item, or read and write other memory. The
  model ends the run there with \<open>MemoryFault\<close>, which marks a run whose result the program does
  not determine. It is no promise that the device traps, and no statement below takes two
  runs that both end this way to agree.
\<close>

type_synonym cl_mem = nat
type_synonym global_mem = "cl_mem \<rightharpoonup> uchar list"

datatype fault = MemoryFault

definition load_uchar4 :: "global_mem \<Rightarrow> cl_mem \<Rightarrow> int32 \<Rightarrow> fault + uchar4" where
  "load_uchar4 m p index =
     (case m p of
        None \<Rightarrow> Inl MemoryFault
      | Some bytes \<Rightarrow>
          (let i = nat (sint index) in
           if 0 \<le> sint index \<and> 4 * i + 3 < length bytes
           then Inr (uchar4 (bytes ! (4 * i)) (bytes ! (4 * i + 1))
                            (bytes ! (4 * i + 2)) (bytes ! (4 * i + 3)))
           else Inl MemoryFault))"

definition store_uchar4 :: "global_mem \<Rightarrow> cl_mem \<Rightarrow> int32 \<Rightarrow> uchar4 \<Rightarrow> fault + global_mem" where
  "store_uchar4 m p index v =
     (case m p of
        None \<Rightarrow> Inl MemoryFault
      | Some bytes \<Rightarrow>
          (let i = nat (sint index) in
           if 0 \<le> sint index \<and> 4 * i + 3 < length bytes
           then Inr (m(p \<mapsto> bytes[4 * i := comp_x v, 4 * i + 1 := comp_y v,
                                  4 * i + 2 := comp_z v, 4 * i + 3 := comp_w v]))
           else Inl MemoryFault))"

section \<open>The kernel \<^verbatim>\<open>convertToGrayscale\<close>\<close>

text \<open>
  Line 19 of the source, \<^verbatim>\<open>uchar grayscale = (px.x + px.y + px.z) / 3;\<close>. The three
  \<^verbatim>\<open>uchar\<close> operands are promoted to \<^verbatim>\<open>int\<close> before the additions (\<open>channel_sum\<close>), the
  division is the one of \<^verbatim>\<open>int\<close> (\<open>grayscale_int\<close>), and the initialisation of the
  \<^verbatim>\<open>uchar\<close> keeps the low eight bits of the quotient (\<open>grayscale\<close>).
\<close>

definition channel_sum :: "uchar4 \<Rightarrow> int32" where
  "channel_sum px = ucast (comp_x px) + ucast (comp_y px) + ucast (comp_z px)"

definition grayscale_int :: "uchar4 \<Rightarrow> int32" where
  "grayscale_int px = int32_div (channel_sum px) 3"

definition grayscale :: "uchar4 \<Rightarrow> uchar" where
  "grayscale px = ucast (grayscale_int px)"

text \<open>
  One work-item of the kernel, at the global id \<open>gid = (get_global_id(0), get_global_id(1))\<close>.
  The ids are \<^verbatim>\<open>size_t\<close> values converted to \<^verbatim>\<open>int\<close>; the index is computed in \<^verbatim>\<open>int\<close>
  and wraps around at 32 bits. The argument \<open>imgHeight\<close> is not used by the body.
\<close>

definition convertToGrayscale ::
  "cl_mem \<Rightarrow> cl_mem \<Rightarrow> int32 \<Rightarrow> int32 \<Rightarrow> nat \<times> nat \<Rightarrow> global_mem \<Rightarrow> fault + global_mem" where
  "convertToGrayscale inputImage outputImage imgWidth imgHeight gid m =
     (let x = (of_nat (fst gid) :: int32);
          y = (of_nat (snd gid) :: int32);
          index = y * imgWidth + x
      in case load_uchar4 m inputImage index of
           Inl e \<Rightarrow> Inl e
         | Inr px \<Rightarrow>
             store_uchar4 m outputImage index
               (uchar4 (grayscale px) (grayscale px) (grayscale px) (comp_w px)))"

section \<open>Dispatch over the 2-D range\<close>

text \<open>
  \<^verbatim>\<open>clEnqueueNDRangeKernel\<close> with the global work size \<open>(gw, gh)\<close> runs the kernel once for
  every global id \<open>(x, y)\<close> with \<open>x < gw\<close> and \<open>y < gh\<close>. The device chooses the order; a
  schedule is any enumeration of the range, each id once. A work-item reads one element and
  writes one element, so the run of a schedule is the run of its work-items one after the other,
  stopped by the first fault.
\<close>

definition ndrange_schedule :: "nat \<times> nat \<Rightarrow> (nat \<times> nat) list \<Rightarrow> bool" where
  "ndrange_schedule gws sched \<longleftrightarrow>
     distinct sched \<and> set sched = {0..<fst gws} \<times> {0..<snd gws}"

definition row_major :: "nat \<times> nat \<Rightarrow> (nat \<times> nat) list" where
  "row_major gws = map (\<lambda>(y, x). (x, y)) (List.product [0..<snd gws] [0..<fst gws])"

fun run_work_items ::
  "(nat \<times> nat \<Rightarrow> global_mem \<Rightarrow> fault + global_mem) \<Rightarrow> (nat \<times> nat) list \<Rightarrow> global_mem
     \<Rightarrow> fault + global_mem" where
  "run_work_items k [] m = Inr m"
| "run_work_items k (gid # gids) m =
     (case k gid m of Inl e \<Rightarrow> Inl e | Inr m' \<Rightarrow> run_work_items k gids m')"

section \<open>The device part of \<^verbatim>\<open>main\<close>: buffers, dispatch, readback\<close>

text \<open>
  \<^verbatim>\<open>cv::Mat\<close> as far as the program uses it: \<^verbatim>\<open>int rows, cols\<close> and the bytes at
  \<^verbatim>\<open>data\<close>, four per pixel for \<^verbatim>\<open>CV_8UC4\<close>, row after row.
\<close>

record Mat =
  rows :: int32
  cols :: int32
  data :: "uchar list"

text \<open>
  \<^verbatim>\<open>sizeof(uchar) * 4 * width * height\<close> is computed in \<^verbatim>\<open>size_t\<close>: the two
  \<^verbatim>\<open>int\<close> operands are converted with their sign. The global work size is
  \<^verbatim>\<open>{ static_cast<size_t>(width), static_cast<size_t>(height) }\<close>.
\<close>

definition buffer_bytes :: "int32 \<Rightarrow> int32 \<Rightarrow> nat" where
  "buffer_bytes width height = unat ((1 :: size_t) * 4 * scast width * scast height)"

definition globalWorkSize :: "int32 \<Rightarrow> int32 \<Rightarrow> nat \<times> nat" where
  "globalWorkSize width height = (unat (scast width :: size_t), unat (scast height :: size_t))"

definition inputBuffer :: cl_mem where "inputBuffer = 0"
definition outputBuffer :: cl_mem where "outputBuffer = 1"

text \<open>
  Lines 95 to 119 with every driver call succeeding. The input buffer is created with
  \<^verbatim>\<open>CL_MEM_COPY_HOST_PTR\<close> and holds a copy of the host bytes; the output buffer is created
  without a host pointer, so its first contents are whatever the device memory held (\<open>junk\<close>).
  The blocking read copies the output buffer into the fresh \<^verbatim>\<open>outputImgRGBA\<close>. The result is
  the device memory after the dispatch, the host input as it is after the run, and the readback.
  The argument \<open>sched\<close> is the order in which the device runs the work-items; the statements
  below take it to be a schedule of \<open>globalWorkSize width height\<close>.
\<close>

record device_run =
  device_memory :: global_mem
  host_input :: Mat
  readback :: Mat

definition create_buffers :: "Mat \<Rightarrow> (nat \<Rightarrow> uchar) \<Rightarrow> global_mem" where
  "create_buffers inputImgRGBA junk =
     (let n = buffer_bytes (cols inputImgRGBA) (rows inputImgRGBA)
      in [inputBuffer \<mapsto> take n (data inputImgRGBA), outputBuffer \<mapsto> map junk [0..<n]])"

definition grayscale_on_device ::
  "Mat \<Rightarrow> (nat \<Rightarrow> uchar) \<Rightarrow> (nat \<times> nat) list \<Rightarrow> fault + device_run" where
  "grayscale_on_device inputImgRGBA junk sched =
     (let width = cols inputImgRGBA;
          height = rows inputImgRGBA;
          n = buffer_bytes width height
      in if length (data inputImgRGBA) < n then Inl MemoryFault
         else
           (let m = create_buffers inputImgRGBA junk
            in case run_work_items
                      (convertToGrayscale inputBuffer outputBuffer width height) sched m of
                 Inl e \<Rightarrow> Inl e
               | Inr m' \<Rightarrow>
                   (case m' outputBuffer of
                      None \<Rightarrow> Inl MemoryFault
                    | Some bytes \<Rightarrow>
                        Inr \<lparr>device_memory = m', host_input = inputImgRGBA,
                             readback = \<lparr>rows = height, cols = width, data = take n bytes\<rparr>\<rparr>)))"

text \<open>The \<^verbatim>\<open>CV_8UC4\<close> image of width \<open>W\<close> and height \<open>H\<close> over the given bytes.\<close>

definition rgba_mat :: "nat \<Rightarrow> nat \<Rightarrow> uchar list \<Rightarrow> Mat" where
  "rgba_mat W H bytes = \<lparr>rows = of_nat H, cols = of_nat W, data = bytes\<rparr>"

text \<open>Two possible first contents of the output buffer.\<close>

definition zero_fill :: "nat \<Rightarrow> uchar" where
  "zero_fill j = 0"

definition ones_fill :: "nat \<Rightarrow> uchar" where
  "ones_fill j = 255"

section \<open>The host program\<close>

text \<open>
  The state of the process: the stream buffers \<^verbatim>\<open>std::cout\<close> and \<^verbatim>\<open>std::cerr\<close>
  currently write to (\<^verbatim>\<open>rdbuf\<close>), the lines that have reached its standard output and its
  error stream, the lines that went to the null sink, the lines inserted into \<^verbatim>\<open>std::cerr\<close>
  wherever they went, the files written, the driver handles held and the ones released. The
  third stream buffer is the one of the \<^verbatim>\<open>std::ofstream devnull\<close>: what is written to it
  reaches neither stream of the process, whether \<^verbatim>\<open>/dev/null\<close> could be opened or not.
\<close>

datatype streambuf = StdoutBuf | StderrBuf | DevNullBuf

datatype handle = H_context | H_cmdQueue | H_program | H_clKernel | H_inputBuffer | H_outputBuffer

record process =
  cout_rdbuf :: streambuf
  cerr_rdbuf :: streambuf
  stdout_lines :: "string list"
  stderr_lines :: "string list"
  devnull_lines :: "string list"
  cerr_inserted :: "string list"
  files_written :: "string list"
  held :: "handle list"
  released :: "handle list"

definition process_start :: process where
  "process_start = \<lparr>cout_rdbuf = StdoutBuf, cerr_rdbuf = StderrBuf, stdout_lines = [],
     stderr_lines = [], devnull_lines = [], cerr_inserted = [], files_written = [], held = [],
     released = []\<rparr>"

definition put_line :: "streambuf \<Rightarrow> string \<Rightarrow> process \<Rightarrow> process" where
  "put_line b l p =
     (case b of
        StdoutBuf \<Rightarrow> p\<lparr>stdout_lines := stdout_lines p @ [l]\<rparr>
      | StderrBuf \<Rightarrow> p\<lparr>stderr_lines := stderr_lines p @ [l]\<rparr>
      | DevNullBuf \<Rightarrow> p\<lparr>devnull_lines := devnull_lines p @ [l]\<rparr>)"

definition cout_line :: "string \<Rightarrow> process \<Rightarrow> process" where
  "cout_line l p = put_line (cout_rdbuf p) l p"

definition cerr_line :: "string \<Rightarrow> process \<Rightarrow> process" where
  "cerr_line l p = put_line (cerr_rdbuf p) l (p\<lparr>cerr_inserted := cerr_inserted p @ [l]\<rparr>)"

text \<open>A handle is held from its successful creation (most recent first) to its release.\<close>

definition acquire :: "handle \<Rightarrow> process \<Rightarrow> process" where
  "acquire h p = p\<lparr>held := h # held p\<rparr>"

definition release :: "handle \<Rightarrow> process \<Rightarrow> process" where
  "release h p =
     (if h \<in> set (held p) then p\<lparr>held := remove1 h (held p), released := released p @ [h]\<rparr>
      else p)"

text \<open>
  The outcomes of the calls into OpenCV and the OpenCL driver, which the program does not
  control: whether the decoded image is empty, the status each driver call returns or stores
  in \<^verbatim>\<open>errorVar\<close>, and whether \<^verbatim>\<open>cv::imwrite\<close> wrote the file.
\<close>

record platform =
  imread_empty :: bool
  clGetPlatformIDs_ret :: int32
  clGetDeviceIDs_ret :: int32
  clCreateContext_err :: int32
  clCreateCommandQueue_err :: int32
  clCreateProgramWithSource_err :: int32
  clBuildProgram_ret :: int32
  clCreateKernel_err :: int32
  clCreateBuffer_input_err :: int32
  clCreateBuffer_output_err :: int32
  clSetKernelArg0_ret :: int32
  clSetKernelArg1_ret :: int32
  clSetKernelArg2_ret :: int32
  clSetKernelArg3_ret :: int32
  clEnqueueNDRangeKernel_ret :: int32
  clEnqueueReadBuffer_ret :: int32
  imwrite_ok :: bool

definition CL_SUCCESS :: int32 where
  "CL_SUCCESS = 0"

text \<open>
  The cleanup of lines 133 to 138 and the end of \<^verbatim>\<open>main\<close> (lines 141 to 146).
\<close>

definition cleanup :: "process \<Rightarrow> process" where
  "cleanup p =
     release H_context (release H_cmdQueue (release H_program (release H_clKernel
       (release H_outputBuffer (release H_inputBuffer p)))))"

definition finish :: "streambuf \<Rightarrow> streambuf \<Rightarrow> process \<Rightarrow> int \<times> process" where
  "finish coutbuf cerrbuf p =
     (let p1 = cleanup p;
          p2 = p1\<lparr>cout_rdbuf := coutbuf, cerr_rdbuf := cerrbuf\<rparr>
      in (0, cout_line
           ''Grayscale conversion has been completed. The Output saved as GreyScaledImage.jpg''
           p2))"

text \<open>
  \<^verbatim>\<open>main\<close>, statement by statement; the result is the value \<^verbatim>\<open>main\<close> returns and the
  process at that moment. The pixel data does not decide any branch and is left out here; the
  device part above gives the bytes that are read back.
\<close>

definition main :: "platform \<Rightarrow> int \<times> process" where
  "main pf =
     (let coutbuf = cout_rdbuf process_start;
          cerrbuf = cerr_rdbuf process_start;
          p = process_start\<lparr>cout_rdbuf := DevNullBuf, cerr_rdbuf := DevNullBuf\<rparr>
      in
      if imread_empty pf then
        (1, cerr_line ''Couldn't find the input image with specified link.'' p)
      else if clGetPlatformIDs_ret pf \<noteq> CL_SUCCESS then
        (1, cerr_line ''Failed to get the platform ID.'' p)
      else if clGetDeviceIDs_ret pf \<noteq> CL_SUCCESS then
        (1, cerr_line ''Failed to get the device ID.'' p)
      else if clCreateContext_err pf \<noteq> CL_SUCCESS then
        (1, cerr_line ''Failed to create the context.'' p)
      else let p = acquire H_context p in
      if clCreateCommandQueue_err pf \<noteq> CL_SUCCESS then
        (1, cerr_line ''Failed to create the command queue.'' p)
      else let p = acquire H_cmdQueue p in
      if clCreateProgramWithSource_err pf \<noteq> CL_SUCCESS then
        (1, cerr_line ''Failed to create the program.'' p)
      else let p = acquire H_program p in
      if clBuildProgram_ret pf \<noteq> CL_SUCCESS then
        (1, cerr_line ''Failed to build the program.'' p)
      else if clCreateKernel_err pf \<noteq> CL_SUCCESS then
        (1, cerr_line ''Failed to create the kernel.'' p)
      else let p = acquire H_clKernel p;
               p = (if clCreateBuffer_input_err pf = CL_SUCCESS then acquire H_inputBuffer p else p);
               p = (if clCreateBuffer_output_err pf = CL_SUCCESS then acquire H_outputBuffer p else p);
               errorVar = clSetKernelArg0_ret pf;
               errorVar = errorVar OR clSetKernelArg1_ret pf;
               errorVar = errorVar OR clSetKernelArg2_ret pf;
               errorVar = errorVar OR clSetKernelArg3_ret pf
      in
      if errorVar \<noteq> CL_SUCCESS then
        (1, cerr_line ''Error: Failed to set kernel arguments.'' p)
      else if clEnqueueNDRangeKernel_ret pf \<noteq> CL_SUCCESS then
        (1, cerr_line ''Error: Failed to execute kernel.'' p)
      else if clEnqueueReadBuffer_ret pf \<noteq> CL_SUCCESS then
        (1, cerr_line ''Error: Failed to read buffer.'' p)
      else let p = (if imwrite_ok pf
                    then p\<lparr>files_written := files_written p @ [''GreyScaledImage.jpg'']\<rparr>
                    else p)
      in finish coutbuf cerrbuf p)"

text \<open>
  The end of the process. \<^verbatim>\<open>devnull\<close> is a local object of \<^verbatim>\<open>main\<close>: when \<^verbatim>\<open>main\<close>
  returns it is destroyed, and its stream buffer with it. After that the runtime flushes
  \<^verbatim>\<open>std::cout\<close> and \<^verbatim>\<open>std::cerr\<close>. A stream that still has the buffer of \<^verbatim>\<open>devnull\<close>
  (lines 30 and 31, undone only by lines 141 and 142) is then flushed through a destroyed
  object: the behaviour is undefined and the process has no defined exit code. Otherwise the
  process exits with the value \<^verbatim>\<open>main\<close> returned.
\<close>

datatype exit_status = Exited int | ExitUndefined

definition program_exit :: "platform \<Rightarrow> exit_status" where
  "program_exit pf =
     (let p = snd (main pf)
      in if cout_rdbuf p = DevNullBuf \<or> cerr_rdbuf p = DevNullBuf then ExitUndefined
         else Exited (fst (main pf)))"

section \<open>The grayscale image as the specification words it\<close>

text \<open>
  The specification's formula, byte by byte: the alpha byte of every pixel is the input's, and
  each of the three colour bytes is \<open>(R + G + B) / 3\<close> on integers, truncated toward zero.
  This definition follows the specification, not the kernel; the kernel is compared with it
  below.
\<close>

definition spec_gray_byte :: "uchar list \<Rightarrow> nat \<Rightarrow> uchar" where
  "spec_gray_byte inb j =
     (if j mod 4 = 3 then inb ! j
      else word_of_int ((uint (inb ! (4 * (j div 4))) + uint (inb ! (4 * (j div 4) + 1))
                          + uint (inb ! (4 * (j div 4) + 2))) sdiv 3))"

definition spec_gray_image :: "uchar list \<Rightarrow> uchar list" where
  "spec_gray_image inb = map (spec_gray_byte inb) [0..<length inb]"

section \<open>The checks of \<^verbatim>\<open>main\<close>\<close>

text \<open>
  The eleven error checks of \<^verbatim>\<open>main\<close> in program order, when each one fires and the line
  it prints. The four \<^verbatim>\<open>clSetKernelArg\<close> statuses share one check; the two
  \<^verbatim>\<open>clCreateBuffer\<close> statuses and the result of \<^verbatim>\<open>cv::imwrite\<close> have none.
\<close>

datatype check =
  Chk_imread | Chk_clGetPlatformIDs | Chk_clGetDeviceIDs | Chk_clCreateContext
  | Chk_clCreateCommandQueue | Chk_clCreateProgramWithSource | Chk_clBuildProgram
  | Chk_clCreateKernel | Chk_clSetKernelArg | Chk_clEnqueueNDRangeKernel
  | Chk_clEnqueueReadBuffer

definition checks :: "check list" where
  "checks = [Chk_imread, Chk_clGetPlatformIDs, Chk_clGetDeviceIDs, Chk_clCreateContext,
     Chk_clCreateCommandQueue, Chk_clCreateProgramWithSource, Chk_clBuildProgram,
     Chk_clCreateKernel, Chk_clSetKernelArg, Chk_clEnqueueNDRangeKernel,
     Chk_clEnqueueReadBuffer]"

fun check_failed :: "platform \<Rightarrow> check \<Rightarrow> bool" where
  "check_failed pf Chk_imread = imread_empty pf"
| "check_failed pf Chk_clGetPlatformIDs = (clGetPlatformIDs_ret pf \<noteq> CL_SUCCESS)"
| "check_failed pf Chk_clGetDeviceIDs = (clGetDeviceIDs_ret pf \<noteq> CL_SUCCESS)"
| "check_failed pf Chk_clCreateContext = (clCreateContext_err pf \<noteq> CL_SUCCESS)"
| "check_failed pf Chk_clCreateCommandQueue = (clCreateCommandQueue_err pf \<noteq> CL_SUCCESS)"
| "check_failed pf Chk_clCreateProgramWithSource =
     (clCreateProgramWithSource_err pf \<noteq> CL_SUCCESS)"
| "check_failed pf Chk_clBuildProgram = (clBuildProgram_ret pf \<noteq> CL_SUCCESS)"
| "check_failed pf Chk_clCreateKernel = (clCreateKernel_err pf \<noteq> CL_SUCCESS)"
| "check_failed pf Chk_clSetKernelArg =
     (clSetKernelArg0_ret pf \<noteq> CL_SUCCESS \<or> clSetKernelArg1_ret pf \<noteq> CL_SUCCESS
      \<or> clSetKernelArg2_ret pf \<noteq> CL_SUCCESS \<or> clSetKernelArg3_ret pf \<noteq> CL_SUCCESS)"
| "check_failed pf Chk_clEnqueueNDRangeKernel = (clEnqueueNDRangeKernel_ret pf \<noteq> CL_SUCCESS)"
| "check_failed pf Chk_clEnqueueReadBuffer = (clEnqueueReadBuffer_ret pf \<noteq> CL_SUCCESS)"

fun diagnostic :: "check \<Rightarrow> string" where
  "diagnostic Chk_imread = ''Couldn't find the input image with specified link.''"
| "diagnostic Chk_clGetPlatformIDs = ''Failed to get the platform ID.''"
| "diagnostic Chk_clGetDeviceIDs = ''Failed to get the device ID.''"
| "diagnostic Chk_clCreateContext = ''Failed to create the context.''"
| "diagnostic Chk_clCreateCommandQueue = ''Failed to create the command queue.''"
| "diagnostic Chk_clCreateProgramWithSource = ''Failed to create the program.''"
| "diagnostic Chk_clBuildProgram = ''Failed to build the program.''"
| "diagnostic Chk_clCreateKernel = ''Failed to create the kernel.''"
| "diagnostic Chk_clSetKernelArg = ''Error: Failed to set kernel arguments.''"
| "diagnostic Chk_clEnqueueNDRangeKernel = ''Error: Failed to execute kernel.''"
| "diagnostic Chk_clEnqueueReadBuffer = ''Error: Failed to read buffer.''"

text \<open>
  A platform on which every call succeeds, the driver's status codes
  \<^verbatim>\<open>CL_PLATFORM_NOT_FOUND_KHR\<close>, \<^verbatim>\<open>CL_DEVICE_NOT_FOUND\<close>,
  \<^verbatim>\<open>CL_MEM_OBJECT_ALLOCATION_FAILURE\<close> and \<^verbatim>\<open>CL_OUT_OF_RESOURCES\<close>, and five platforms on
  which one call fails: the input file is missing, no OpenCL platform is installed, the first
  platform has no GPU, the input buffer cannot be allocated, the dispatch is refused.
\<close>

text \<open>
  The process after the redirection of lines 26 to 31, the process once the kernel and the two
  buffers have been requested (lines 88 to 98), and the process \<^verbatim>\<open>main\<close> is in when it
  arrives at each check.
\<close>

definition redirected :: process where
  "redirected = process_start\<lparr>cout_rdbuf := DevNullBuf, cerr_rdbuf := DevNullBuf\<rparr>"

definition with_buffers :: "platform \<Rightarrow> process" where
  "with_buffers pf =
     (let p = acquire H_clKernel
                (acquire H_program (acquire H_cmdQueue (acquire H_context redirected)));
          p = (if clCreateBuffer_input_err pf = CL_SUCCESS then acquire H_inputBuffer p else p)
      in (if clCreateBuffer_output_err pf = CL_SUCCESS then acquire H_outputBuffer p else p))"

fun reached :: "platform \<Rightarrow> check \<Rightarrow> process" where
  "reached pf Chk_imread = redirected"
| "reached pf Chk_clGetPlatformIDs = redirected"
| "reached pf Chk_clGetDeviceIDs = redirected"
| "reached pf Chk_clCreateContext = redirected"
| "reached pf Chk_clCreateCommandQueue = acquire H_context redirected"
| "reached pf Chk_clCreateProgramWithSource = acquire H_cmdQueue (acquire H_context redirected)"
| "reached pf Chk_clBuildProgram =
     acquire H_program (acquire H_cmdQueue (acquire H_context redirected))"
| "reached pf Chk_clCreateKernel =
     acquire H_program (acquire H_cmdQueue (acquire H_context redirected))"
| "reached pf Chk_clSetKernelArg = with_buffers pf"
| "reached pf Chk_clEnqueueNDRangeKernel = with_buffers pf"
| "reached pf Chk_clEnqueueReadBuffer = with_buffers pf"

definition all_succeed :: platform where
  "all_succeed = \<lparr>imread_empty = False, clGetPlatformIDs_ret = 0, clGetDeviceIDs_ret = 0,
     clCreateContext_err = 0, clCreateCommandQueue_err = 0, clCreateProgramWithSource_err = 0,
     clBuildProgram_ret = 0, clCreateKernel_err = 0, clCreateBuffer_input_err = 0,
     clCreateBuffer_output_err = 0, clSetKernelArg0_ret = 0, clSetKernelArg1_ret = 0,
     clSetKernelArg2_ret = 0, clSetKernelArg3_ret = 0, clEnqueueNDRangeKernel_ret = 0,
     clEnqueueReadBuffer_ret = 0, imwrite_ok = True\<rparr>"

definition CL_MEM_OBJECT_ALLOCATION_FAILURE :: int32 where
  "CL_MEM_OBJECT_ALLOCATION_FAILURE = - 4"

definition CL_PLATFORM_NOT_FOUND_KHR :: int32 where
  "CL_PLATFORM_NOT_FOUND_KHR = - 1001"

definition CL_DEVICE_NOT_FOUND :: int32 where
  "CL_DEVICE_NOT_FOUND = - 1"

definition missing_file :: platform where
  "missing_file = all_succeed\<lparr>imread_empty := True\<rparr>"

definition no_gpu :: platform where
  "no_gpu = all_succeed\<lparr>clGetDeviceIDs_ret := CL_DEVICE_NOT_FOUND\<rparr>"

definition no_platform :: platform where
  "no_platform = all_succeed\<lparr>clGetPlatformIDs_ret := CL_PLATFORM_NOT_FOUND_KHR\<rparr>"

definition input_alloc_fails :: platform where
  "input_alloc_fails =
     all_succeed\<lparr>clCreateBuffer_input_err := CL_MEM_OBJECT_ALLOCATION_FAILURE\<rparr>"

definition CL_OUT_OF_RESOURCES :: int32 where
  "CL_OUT_OF_RESOURCES = - 5"

definition enqueue_fails :: platform where
  "enqueue_fails = all_succeed\<lparr>clEnqueueNDRangeKernel_ret := CL_OUT_OF_RESOURCES\<rparr>"

section \<open>The arithmetic of one pixel\<close>

text \<open>
  The promoted sum of three \<^verbatim>\<open>uchar\<close> values lies between 0 and 765, so neither the
  additions nor the division leave the range of \<^verbatim>\<open>int\<close>, and the quotient fits a
  \<^verbatim>\<open>uchar\<close>.
\<close>

lemma signed_take_bit_31_small:
  fixes k :: int
  assumes "0 \<le> k" "k < 2147483648"
  shows "signed_take_bit 31 k = k"
  using assms by (intro signed_take_bit_int_eq_self) simp_all

lemma uchar_sum_bounds:
  fixes a b c :: uchar
  shows "0 \<le> uint a + uint b + uint c" "uint a + uint b + uint c \<le> 765"
proof -
  have "uint a < 256" "uint b < 256" "uint c < 256"
    using uint_bounded [of a] uint_bounded [of b] uint_bounded [of c] by simp_all
  then show "uint a + uint b + uint c \<le> 765" by linarith
  show "0 \<le> uint a + uint b + uint c" by simp
qed

lemma sint_channel_sum:
  "sint (channel_sum px) = uint (comp_x px) + uint (comp_y px) + uint (comp_z px)"
proof -
  let ?s = "uint (comp_x px) + uint (comp_y px) + uint (comp_z px)"
  have "channel_sum px = word_of_int (uint (comp_x px)) + word_of_int (uint (comp_y px)) + word_of_int (uint (comp_z px))"
    unfolding channel_sum_def by (simp only: ucast_eq)
  also have "\<dots> = word_of_int ?s"
    by (simp only: wi_hom_add)
  finally have "sint (channel_sum px) = signed_take_bit 31 ?s"
    by (simp only: sint_sbintrunc') simp
  also have "\<dots> = ?s"
    using uchar_sum_bounds [of "comp_x px" "comp_y px" "comp_z px"]
    by (intro signed_take_bit_31_small) linarith+
  finally show ?thesis .
qed

lemma sint_grayscale_int:
  "sint (grayscale_int px) = (uint (comp_x px) + uint (comp_y px) + uint (comp_z px)) div 3"
proof -
  let ?s = "uint (comp_x px) + uint (comp_y px) + uint (comp_z px)"
  note sb = uchar_sum_bounds [of "comp_x px" "comp_y px" "comp_z px"]
  have q: "?s sdiv 3 = ?s div 3"
    using sb(1) by (simp add: signed_divide_int_def sgn_if)
  have three: "sint (3 :: int32) = 3" by simp
  have "grayscale_int px = word_of_int (?s div 3)"
    by (simp only: grayscale_int_def int32_div_def sint_channel_sum three q)
  then have "sint (grayscale_int px) = signed_take_bit 31 (?s div 3)"
    by (simp only: sint_sbintrunc') simp
  also have "\<dots> = ?s div 3"
  proof (rule signed_take_bit_31_small)
    show "0 \<le> ?s div 3" using sb(1) by (simp add: pos_imp_zdiv_nonneg_iff)
    have "?s div 3 \<le> 765 div 3" using sb(2) by (rule zdiv_mono1) simp
    then show "?s div 3 < 2147483648" by simp
  qed
  finally show ?thesis .
qed

lemma grayscale_int_range: "0 \<le> sint (grayscale_int px)" "sint (grayscale_int px) \<le> 255"
proof -
  let ?s = "uint (comp_x px) + uint (comp_y px) + uint (comp_z px)"
  note sb = uchar_sum_bounds [of "comp_x px" "comp_y px" "comp_z px"]
  show "0 \<le> sint (grayscale_int px)"
    unfolding sint_grayscale_int using sb(1) by (simp add: pos_imp_zdiv_nonneg_iff)
  have "?s div 3 \<le> 765 div 3" using sb(2) by (rule zdiv_mono1) simp
  then show "sint (grayscale_int px) \<le> 255"
    unfolding sint_grayscale_int by simp
qed

lemma uint_grayscale:
  "uint (grayscale px) = (uint (comp_x px) + uint (comp_y px) + uint (comp_z px)) div 3"
proof -
  let ?q = "(uint (comp_x px) + uint (comp_y px) + uint (comp_z px)) div 3"
  have r: "0 \<le> ?q" "?q \<le> 255"
    using grayscale_int_range [of px] by (simp_all only: sint_grayscale_int)
  have "grayscale_int px = word_of_int (sint (grayscale_int px))" by simp
  then have g: "grayscale_int px = word_of_int ?q" by (simp only: sint_grayscale_int)
  have "uint (grayscale px) = take_bit 8 (take_bit 32 ?q)"
    unfolding grayscale_def g by (simp only: unsigned_ucast_eq uint_word_of_int_eq) simp
  also have "\<dots> = ?q"
  proof -
    have "take_bit 32 ?q = ?q" using r by (intro take_bit_int_eq_self) simp_all
    moreover have "take_bit 8 ?q = ?q" using r by (intro take_bit_int_eq_self) simp_all
    ultimately show ?thesis by simp
  qed
  finally show ?thesis .
qed

text \<open>The single pixels of the specification's scenarios S1, S2 and S3.\<close>

lemma scenario_S1: "grayscale (uchar4 90 150 210 255) = 150"
  by (simp add: grayscale_def grayscale_int_def int32_div_def channel_sum_def
        signed_divide_int_def)

lemma scenario_S2: "grayscale (uchar4 0 0 1 128) = 0"
  by (simp add: grayscale_def grayscale_int_def int32_div_def channel_sum_def
        signed_divide_int_def)

lemma scenario_S3: "grayscale (uchar4 255 255 255 0) = 255"
  by (simp add: grayscale_def grayscale_int_def int32_div_def channel_sum_def
        signed_divide_int_def)

section \<open>Work-items and runs\<close>

text \<open>
  A work-item whose index \<open>y * W + x\<close> is below \<open>2\<^sup>3\<^sup>1\<close> reads its pixel and writes the four
  bytes the specification names; a run over ids inside the range keeps the length of the output
  buffer and leaves every byte of a pixel it has not visited as it was.
\<close>

lemma sint_of_nat_small:
  assumes "n < 2147483648"
  shows "sint (of_nat n :: int32) = int n"
proof -
  have "sint (of_nat n :: int32) = signed_take_bit 31 (int n)"
    by (simp add: signed_of_nat)
  also have "\<dots> = int n"
    using assms by (intro signed_take_bit_int_eq_self) simp_all
  finally show ?thesis .
qed

lemma index_bound:
  fixes x y W H :: nat
  assumes "x < W" "y < H"
  shows "y * W + x < W * H"
proof -
  have "y * W + x < y * W + W" using assms by simp
  also have "\<dots> = (Suc y) * W" by simp
  also have "\<dots> \<le> H * W" using assms by (intro mult_le_mono1) simp
  finally show ?thesis by (simp add: mult.commute)
qed

lemma grayscale_spec:
  "grayscale px = word_of_int ((uint (comp_x px) + uint (comp_y px) + uint (comp_z px)) sdiv 3)"
proof -
  let ?s = "uint (comp_x px) + uint (comp_y px) + uint (comp_z px)"
  have q: "?s sdiv 3 = ?s div 3"
    using uchar_sum_bounds(1) [of "comp_x px" "comp_y px" "comp_z px"]
    by (simp add: signed_divide_int_def sgn_if)
  have "grayscale px = word_of_int (uint (grayscale px))" by simp
  then show ?thesis by (simp only: uint_grayscale q)
qed

lemma four_bound:
  fixes i n :: nat
  shows "i < n \<Longrightarrow> 4 * i + 3 < 4 * n"
  by arith

lemma small_bound:
  fixes i n :: nat
  shows "i < n \<Longrightarrow> n \<le> 2147483648 \<Longrightarrow> i < 2147483648"
  by arith

lemma load_uchar4_ok:
  assumes "m p = Some bs" "sint w = int i" "4 * i + 3 < length bs"
  shows "load_uchar4 m p w =
           Inr (uchar4 (bs ! (4 * i)) (bs ! (4 * i + 1)) (bs ! (4 * i + 2)) (bs ! (4 * i + 3)))"
  using assms by (simp add: load_uchar4_def)

lemma store_uchar4_ok:
  assumes "m p = Some bs" "sint w = int i" "4 * i + 3 < length bs"
  shows "store_uchar4 m p w v =
           Inr (m(p \<mapsto> bs[4 * i := comp_x v, 4 * i + 1 := comp_y v,
                               4 * i + 2 := comp_z v, 4 * i + 3 := comp_w v]))"
  using assms by (simp add: store_uchar4_def)

lemma work_item_in_range:
  fixes W H x y :: nat
  assumes dims: "W * H \<le> 2147483648"
    and gid: "x < W" "y < H"
    and bufs: "ip \<noteq> op" "m ip = Some inb" "m op = Some outb"
              "length inb = 4 * (W * H)" "length outb = 4 * (W * H)"
  shows "convertToGrayscale ip op (of_nat W) hgt (x, y) m =
           Inr (m(op \<mapsto> outb[4 * (y * W + x) := spec_gray_byte inb (4 * (y * W + x)),
                              4 * (y * W + x) + 1 := spec_gray_byte inb (4 * (y * W + x) + 1),
                              4 * (y * W + x) + 2 := spec_gray_byte inb (4 * (y * W + x) + 2),
                              4 * (y * W + x) + 3 := spec_gray_byte inb (4 * (y * W + x) + 3)]))"
proof -
  let ?i = "y * W + x"
  have lt: "?i < W * H" using gid by (rule index_bound)
  have idx: "(of_nat y :: int32) * of_nat W + of_nat x = of_nat ?i"
    by (simp only: of_nat_add of_nat_mult)
  have si: "sint (of_nat ?i :: int32) = int ?i"
    using lt dims by (intro sint_of_nat_small) (rule small_bound)
  have inr: "4 * ?i + 3 < 4 * (W * H)" using lt by (rule four_bound)
  have m4: "(4 * ?i) mod 4 = 0" "(4 * ?i + 1) mod 4 = 1" "(4 * ?i + 2) mod 4 = 2"
    "(4 * ?i + 3) mod 4 = 3" by presburger+
  have d4: "(4 * ?i) div 4 = ?i" "(4 * ?i + 1) div 4 = ?i" "(4 * ?i + 2) div 4 = ?i"
    "(4 * ?i + 3) div 4 = ?i" by presburger+
  let ?px = "uchar4 (inb ! (4 * ?i)) (inb ! (4 * ?i + 1)) (inb ! (4 * ?i + 2)) (inb ! (4 * ?i + 3))"
  have ld: "load_uchar4 m ip (of_nat ?i) = Inr ?px"
    using bufs(2) si inr [folded bufs(4)] by (rule load_uchar4_ok)
  have g: "grayscale ?px = spec_gray_byte inb (4 * ?i)"
    "grayscale ?px = spec_gray_byte inb (4 * ?i + 1)"
    "grayscale ?px = spec_gray_byte inb (4 * ?i + 2)"
    by (simp_all only: spec_gray_byte_def m4 d4 grayscale_spec uchar4.sel) simp_all
  have a: "inb ! (4 * ?i + 3) = spec_gray_byte inb (4 * ?i + 3)"
    by (simp only: spec_gray_byte_def m4) simp
  let ?v = "uchar4 (grayscale ?px) (grayscale ?px) (grayscale ?px) (comp_w ?px)"
  have "store_uchar4 m op (of_nat ?i) ?v
      = Inr (m(op \<mapsto> outb[4 * ?i := comp_x ?v, 4 * ?i + 1 := comp_y ?v,
                              4 * ?i + 2 := comp_z ?v, 4 * ?i + 3 := comp_w ?v]))"
    using bufs(3) si inr [folded bufs(5)] by (rule store_uchar4_ok)
  then have st: "store_uchar4 m op (of_nat ?i) ?v
      = Inr (m(op \<mapsto> outb[4 * ?i := spec_gray_byte inb (4 * ?i),
                              4 * ?i + 1 := spec_gray_byte inb (4 * ?i + 1),
                              4 * ?i + 2 := spec_gray_byte inb (4 * ?i + 2),
                              4 * ?i + 3 := spec_gray_byte inb (4 * ?i + 3)]))"
    by (simp only: uchar4.sel g(1) [symmetric] g(2) [symmetric] g(3) [symmetric] a [symmetric])
  show ?thesis
    unfolding convertToGrayscale_def Let_def fst_conv snd_conv idx ld sum.case st ..
qed

lemma update4_other:
  fixes bs :: "'a list"
  assumes "j div 4 \<noteq> i"
  shows "bs[4 * i := a, 4 * i + 1 := b, 4 * i + 2 := c, 4 * i + 3 := d] ! j = bs ! j"
proof -
  have "j \<noteq> 4 * i" "j \<noteq> 4 * i + 1" "j \<noteq> 4 * i + 2" "j \<noteq> 4 * i + 3"
    using assms by presburger+
  then show ?thesis by simp
qed

lemma update4_same:
  fixes bs :: "'a list"
  assumes "j div 4 = i" "4 * i + 3 < length bs"
  shows "bs[4 * i := f (4 * i), 4 * i + 1 := f (4 * i + 1), 4 * i + 2 := f (4 * i + 2),
            4 * i + 3 := f (4 * i + 3)] ! j = f j"
proof -
  have "j = 4 * i \<or> j = 4 * i + 1 \<or> j = 4 * i + 2 \<or> j = 4 * i + 3"
    using assms(1) by presburger
  then consider "j = 4 * i" | "j = 4 * i + 1" | "j = 4 * i + 2" | "j = 4 * i + 3"
    by blast
  then show ?thesis
    using assms(2) by cases simp_all
qed

lemma run_in_range:
  fixes W H :: nat
  assumes dims: "W * H \<le> 2147483648"
    and sub: "set s \<subseteq> {0..<W} \<times> {0..<H}"
    and bufs: "ip \<noteq> op" "m ip = Some inb" "m op = Some outb"
              "length inb = 4 * (W * H)" "length outb = 4 * (W * H)"
  shows "\<exists>outb'. run_work_items (convertToGrayscale ip op (of_nat W) hgt) s m = Inr (m(op \<mapsto> outb'))
           \<and> length outb' = 4 * (W * H)
           \<and> (\<forall>j. outb' ! j =
                  (if j div 4 \<in> (\<lambda>(x, y). y * W + x) ` set s then spec_gray_byte inb j
                   else outb ! j))"
  using sub bufs(2,3,5)
proof (induction s arbitrary: m outb)
  case Nil
  have "m(op \<mapsto> outb) = m" using Nil.prems(3) by (rule map_upd_triv)
  then have "run_work_items (convertToGrayscale ip op (of_nat W) hgt) [] m = Inr (m(op \<mapsto> outb))
      \<and> length outb = 4 * (W * H)
      \<and> (\<forall>j. outb ! j = (if j div 4 \<in> (\<lambda>(x, y). y * W + x) ` set [] then spec_gray_byte inb j
                   else outb ! j))"
    using Nil.prems(4) by simp
  then show ?case by (rule exI)
next
  case (Cons g s)
  obtain x y where g: "g = (x, y)" by (cases g)
  have xy: "x < W" "y < H" using Cons.prems(1) g by simp_all
  let ?i = "y * W + x"
  let ?o1 = "outb[4 * ?i := spec_gray_byte inb (4 * ?i),
                  4 * ?i + 1 := spec_gray_byte inb (4 * ?i + 1),
                  4 * ?i + 2 := spec_gray_byte inb (4 * ?i + 2),
                  4 * ?i + 3 := spec_gray_byte inb (4 * ?i + 3)]"
  let ?m1 = "m(op \<mapsto> ?o1)"
  have step: "convertToGrayscale ip op (of_nat W) hgt (x, y) m = Inr ?m1"
    using dims xy bufs(1) Cons.prems(2,3) bufs(4) Cons.prems(4)
    by (rule work_item_in_range)
  have inr: "4 * ?i + 3 < length outb"
    using index_bound [OF xy] Cons.prems(4) by (simp only: four_bound)
  have m1: "?m1 ip = Some inb" "?m1 op = Some ?o1" "length ?o1 = 4 * (W * H)"
    using bufs(1) Cons.prems(2,4) by simp_all
  have sub': "set s \<subseteq> {0..<W} \<times> {0..<H}" using Cons.prems(1) by simp
  from Cons.IH [OF sub' m1] obtain outb' where
    r: "run_work_items (convertToGrayscale ip op (of_nat W) hgt) s ?m1 = Inr (?m1(op \<mapsto> outb'))"
    and l: "length outb' = 4 * (W * H)"
    and c: "\<And>j. outb' ! j =
                  (if j div 4 \<in> (\<lambda>(x, y). y * W + x) ` set s then spec_gray_byte inb j
                   else ?o1 ! j)"
    by blast
  have run: "run_work_items (convertToGrayscale ip op (of_nat W) hgt) (g # s) m = Inr (m(op \<mapsto> outb'))"
    unfolding g run_work_items.simps step sum.case r by (simp only: fun_upd_upd)
  have "outb' ! j =
          (if j div 4 \<in> (\<lambda>(x, y). y * W + x) ` set (g # s) then spec_gray_byte inb j
           else outb ! j)" for j
  proof (cases "j div 4 \<in> (\<lambda>(x, y). y * W + x) ` set s")
    case True
    then show ?thesis using c [of j] by simp
  next
    case False
    show ?thesis
    proof (cases "j div 4 = ?i")
      case True
      have "?o1 ! j = spec_gray_byte inb j"
        using True inr by (rule update4_same)
      then show ?thesis using c [of j] False True g by simp
    next
      case ne: False
      have "?o1 ! j = outb ! j" using ne by (rule update4_other)
      then show ?thesis using c [of j] False ne g by simp
    qed
  qed
  then show ?case using run l by blast
qed

lemma scast_of_nat_small:
  assumes "W < 2147483648"
  shows "(scast (of_nat W :: int32) :: size_t) = of_nat W"
proof -
  have "(scast (of_nat W :: int32) :: size_t) = of_int (sint (of_nat W :: int32))"
    by (simp only: scast_eq)
  also have "\<dots> = of_int (int W)"
    using assms by (simp only: sint_of_nat_small)
  finally show ?thesis by simp
qed

lemma unat_size_t_of_nat:
  assumes "n < 18446744073709551616"
  shows "unat (of_nat n :: size_t) = n"
proof -
  have "unat (of_nat n :: size_t) = take_bit 64 n"
    by (simp add: unsigned_of_nat)
  also have "\<dots> = n" using assms by (intro take_bit_nat_eq_self) simp
  finally show ?thesis .
qed

lemma globalWorkSize_of_nat:
  assumes "W < 2147483648" "H < 2147483648"
  shows "globalWorkSize (of_nat W) (of_nat H) = (W, H)"
proof -
  have "W < 18446744073709551616" "H < 18446744073709551616" using assms by simp_all
  then show ?thesis
    unfolding globalWorkSize_def
    by (simp only: scast_of_nat_small [OF assms(1)] scast_of_nat_small [OF assms(2)]
          unat_size_t_of_nat)
qed

lemma buffer_bytes_of_nat:
  assumes "W < 2147483648" "H < 2147483648"
  shows "buffer_bytes (of_nat W) (of_nat H) = 4 * (W * H)"
proof -
  have "W * H < 2147483648 * 2147483648"
    using assms by (intro mult_strict_mono) simp_all
  then have b: "4 * (W * H) < 18446744073709551616" by linarith
  have "(1 :: size_t) * 4 * scast (of_nat W :: int32) * scast (of_nat H :: int32)
          = 1 * 4 * of_nat W * of_nat H"
    by (simp only: scast_of_nat_small [OF assms(1)] scast_of_nat_small [OF assms(2)])
  also have "\<dots> = of_nat (4 * (W * H))" by simp
  finally show ?thesis
    unfolding buffer_bytes_def using b by (simp only: unat_size_t_of_nat)
qed

lemma index_cover:
  fixes W H i :: nat
  assumes "i < W * H"
  shows "i \<in> (\<lambda>(x, y). y * W + x) ` ({0..<W} \<times> {0..<H})"
proof -
  have W: "0 < W" using assms by (cases W) simp_all
  have x: "i mod W < W" using W by simp
  have y: "i div W < H" using assms W by (simp add: less_mult_imp_div_less mult.commute)
  have "i = (\<lambda>(x, y). y * W + x) (i mod W, i div W)" by simp
  moreover have "(i mod W, i div W) \<in> {0..<W} \<times> {0..<H}" using x y by simp
  ultimately show ?thesis by (rule image_eqI)
qed

lemma device_in_range:
  fixes W H :: nat
  assumes rep: "W < 2147483648" "H < 2147483648"
    and dims: "W * H \<le> 2147483648"
    and len: "length inp = 4 * (W * H)"
    and sched: "set s = {0..<W} \<times> {0..<H}"
  shows "grayscale_on_device (rgba_mat W H inp) junk s =
           Inr \<lparr>device_memory = [inputBuffer \<mapsto> inp, outputBuffer \<mapsto> spec_gray_image inp],
                host_input = rgba_mat W H inp,
                readback = rgba_mat W H (spec_gray_image inp)\<rparr>"
proof -
  let ?n = "4 * (W * H)"
  let ?m = "[inputBuffer \<mapsto> inp, outputBuffer \<mapsto> map junk [0..<?n]]"
  have ne: "inputBuffer \<noteq> outputBuffer" by (simp add: inputBuffer_def outputBuffer_def)
  have sub: "set s \<subseteq> {0..<W} \<times> {0..<H}" using sched by simp
  have mi: "?m inputBuffer = Some inp" using ne by simp
  have mo: "?m outputBuffer = Some (map junk [0..<?n])" by simp
  have lj: "length (map junk [0..<?n]) = ?n" by simp
  from run_in_range [OF dims sub ne mi mo len lj, of "of_nat H"] obtain outb' where
    r: "run_work_items (convertToGrayscale inputBuffer outputBuffer (of_nat W) (of_nat H)) s ?m
          = Inr (?m(outputBuffer \<mapsto> outb'))"
    and l: "length outb' = ?n"
    and c: "\<And>j. outb' ! j =
                  (if j div 4 \<in> (\<lambda>(x, y). y * W + x) ` set s then spec_gray_byte inp j
                   else map junk [0..<?n] ! j)"
    by blast
  have "outb' ! j = spec_gray_image inp ! j" if "j < ?n" for j
  proof -
    have "j div 4 < W * H" using that by simp
    then have "j div 4 \<in> (\<lambda>(x, y). y * W + x) ` set s"
      unfolding sched by (rule index_cover)
    then have "outb' ! j = spec_gray_byte inp j" using c [of j] by simp
    then show ?thesis using that len by (simp add: spec_gray_image_def)
  qed
  then have eq: "outb' = spec_gray_image inp"
    using l len by (intro nth_equalityI) (simp_all add: spec_gray_image_def)
  have upd: "?m(outputBuffer \<mapsto> outb') = [inputBuffer \<mapsto> inp, outputBuffer \<mapsto> outb']"
    by simp
  have lg: "length (spec_gray_image inp) = ?n" using len by (simp add: spec_gray_image_def)
  show ?thesis
    unfolding grayscale_on_device_def create_buffers_def rgba_mat_def
    apply (simp only: Let_def Mat.simps buffer_bytes_of_nat [OF rep] len)
    apply (simp only: take_all [of inp "4 * (W * H)", OF eq_imp_le [OF len]] r upd eq)
    apply (simp add: lg)
    done
qed

lemma fault_eq: "(e :: fault) = MemoryFault"
  by (cases e) simp

lemma load_uchar4_negative:
  assumes "sint w < 0"
  shows "load_uchar4 m p w = Inl MemoryFault"
  using assms by (simp add: load_uchar4_def split: option.split)

lemma work_item_wrap_faults:
  fixes W x y :: nat
  assumes "y * W + x = 2147483648"
  shows "convertToGrayscale ip op (of_nat W) hgt (x, y) m = Inl MemoryFault"
proof -
  have idx: "(of_nat y :: int32) * of_nat W + of_nat x = of_nat (y * W + x)"
    by (simp only: of_nat_add of_nat_mult)
  have "sint (of_nat (y * W + x) :: int32) < 0"
    unfolding assms by simp
  then have ld: "load_uchar4 m ip (of_nat (y * W + x)) = Inl MemoryFault"
    by (rule load_uchar4_negative)
  show ?thesis
    unfolding convertToGrayscale_def Let_def fst_conv snd_conv idx ld sum.case ..
qed

lemma run_faults:
  assumes "g \<in> set s" "\<And>m. k g m = Inl MemoryFault"
  shows "run_work_items k s m = Inl MemoryFault"
  using assms(1)
proof (induction s arbitrary: m)
  case Nil
  then show ?case by simp
next
  case (Cons h s)
  show ?case
  proof (cases "k h m")
    case (Inl e)
    then show ?thesis by (simp add: fault_eq [of e])
  next
    case (Inr m')
    show ?thesis
    proof (cases "g = h")
      case True
      then show ?thesis using assms(2) [of m] Inr by simp
    next
      case False
      then have "g \<in> set s" using Cons.prems by simp
      then have "run_work_items k s m' = Inl MemoryFault" by (rule Cons.IH)
      then show ?thesis using Inr by simp
    qed
  qed
qed

lemma device_out_of_range:
  fixes W H :: nat
  assumes rep: "W < 2147483648" "H < 2147483648"
    and dims: "2147483648 < W * H"
    and sched: "set s = {0..<W} \<times> {0..<H}"
  shows "grayscale_on_device (rgba_mat W H inp) junk s = Inl MemoryFault"
proof -
  have "(2147483648 :: nat) \<in> (\<lambda>(x, y). y * W + x) ` ({0..<W} \<times> {0..<H})"
    using dims by (rule index_cover)
  then obtain x y where g: "(x, y) \<in> set s" and i: "y * W + x = 2147483648"
    unfolding sched by auto
  have "run_work_items (convertToGrayscale inputBuffer outputBuffer (of_nat W) (of_nat H)) s m
          = Inl MemoryFault" for m
    using g work_item_wrap_faults [OF i] by (rule run_faults)
  then show ?thesis
    unfolding grayscale_on_device_def rgba_mat_def
    by (simp only: Let_def Mat.simps sum.case if_cancel)
qed

lemma ndrange_schedule_row_major: "ndrange_schedule gws (row_major gws)"
proof -
  have "inj_on (\<lambda>(y :: nat, x :: nat). (x, y)) A" for A
    by (auto simp: inj_on_def)
  then have "distinct (row_major gws)"
    unfolding row_major_def by (simp add: distinct_map distinct_product)
  moreover have "set (row_major gws) = {0..<fst gws} \<times> {0..<snd gws}"
    unfolding row_major_def by auto
  ultimately show ?thesis by (simp add: ndrange_schedule_def)
qed

text \<open>A work-item that completes changes no buffer but the one named by \<open>outputImage\<close>.\<close>

lemma store_uchar4_frame:
  assumes "store_uchar4 m p w v = Inr m'" "q \<noteq> p"
  shows "m' q = m q"
  using assms by (auto simp: store_uchar4_def Let_def split: option.splits if_splits)

lemma work_item_frame:
  assumes "convertToGrayscale ip op w h g m = Inr m'" "q \<noteq> op"
  shows "m' q = m q"
  using assms
  by (auto simp: convertToGrayscale_def Let_def split: sum.splits dest: store_uchar4_frame)

lemma run_frame:
  assumes "run_work_items (convertToGrayscale ip op w h) s m = Inr m'" "q \<noteq> op"
  shows "m' q = m q"
  using assms(1)
proof (induction s arbitrary: m)
  case Nil
  then show ?case by simp
next
  case (Cons g s)
  from Cons.prems obtain m1 where
    s1: "convertToGrayscale ip op w h g m = Inr m1"
    and r: "run_work_items (convertToGrayscale ip op w h) s m1 = Inr m'"
    by (auto split: sum.splits)
  have "m' q = m1 q" using r by (rule Cons.IH)
  also have "m1 q = m q" using s1 assms(2) by (rule work_item_frame)
  finally show ?case .
qed

lemma schedule_set:
  assumes "W < 2147483648" "H < 2147483648"
    "ndrange_schedule (globalWorkSize (of_nat W) (of_nat H)) s"
  shows "set s = {0..<W} \<times> {0..<H}"
  using assms(3) by (simp add: ndrange_schedule_def globalWorkSize_of_nat [OF assms(1,2)])

lemma spec_gray_image_nth:
  assumes "j < length inb"
  shows "spec_gray_image inb ! j = spec_gray_byte inb j"
  using assms by (simp add: spec_gray_image_def)

lemma length_spec_gray_image: "length (spec_gray_image inb) = length inb"
  by (simp add: spec_gray_image_def)

lemma spec_gray_image_gray:
  assumes len: "length inb = 4 * n"
    and gray: "\<And>i. i < n \<Longrightarrow> inb ! (4 * i) = inb ! (4 * i + 1) \<and> inb ! (4 * i + 1) = inb ! (4 * i + 2)"
  shows "spec_gray_image inb = inb"
proof (rule nth_equalityI)
  show "length (spec_gray_image inb) = length inb" by (rule length_spec_gray_image)
next
  fix j assume "j < length (spec_gray_image inb)"
  then have j: "j < length inb" by (simp add: length_spec_gray_image)
  let ?i = "j div 4"
  have i: "?i < n" using j len by simp
  let ?v = "inb ! (4 * ?i)"
  have e: "inb ! (4 * ?i + 1) = ?v" "inb ! (4 * ?i + 2) = ?v" using gray [OF i] by simp_all
  have q: "(uint ?v + uint ?v + uint ?v) sdiv 3 = uint ?v"
  proof -
    have "(k + k + k) sdiv 3 = k" if "0 \<le> k" for k :: int
      using that by (simp add: signed_divide_int_def sgn_if)
    then show ?thesis by simp
  qed
  have "spec_gray_byte inb j = inb ! j"
  proof (cases "j mod 4 = 3")
    case True
    then show ?thesis by (simp add: spec_gray_byte_def)
  next
    case False
    then have "j = 4 * ?i \<or> j = 4 * ?i + 1 \<or> j = 4 * ?i + 2" by presburger
    then have "inb ! j = ?v" using e by metis
    moreover have "spec_gray_byte inb j = ?v"
      using False by (simp only: spec_gray_byte_def e q if_False word_of_int_uint)
    ultimately show ?thesis by simp
  qed
  then show "spec_gray_image inb ! j = inb ! j" using j by (simp add: spec_gray_image_nth)
qed

section \<open>The control flow of the host program\<close>

text \<open>
  \<^verbatim>\<open>main\<close> returns at the first check that fires, in the state it has reached there, and
  runs to the cleanup when none fires.
\<close>

lemma or4_zero:
  fixes a b c d :: int32
  shows "((a OR b) OR c) OR d = 0 \<longleftrightarrow> a = 0 \<and> b = 0 \<and> c = 0 \<and> d = 0"
  by (simp add: or_eq_0_iff)

lemma main_by_checks:
  "main pf =
     (case find (check_failed pf) checks of
        Some c \<Rightarrow> (1, cerr_line (diagnostic c) (reached pf c))
      | None \<Rightarrow>
          finish StdoutBuf StderrBuf
            (if imwrite_ok pf
             then (with_buffers pf)\<lparr>files_written :=
                    files_written (with_buffers pf) @ [''GreyScaledImage.jpg'']\<rparr>
             else with_buffers pf))"
  unfolding checks_def main_def
  by (simp add: Let_def or4_zero CL_SUCCESS_def redirected_def [symmetric] with_buffers_def
        process_start_def [THEN arg_cong, of cout_rdbuf]
        process_start_def [THEN arg_cong, of cerr_rdbuf]
      del: One_nat_def)

lemma redirected_fields:
  "cerr_rdbuf redirected = DevNullBuf" "stdout_lines redirected = []"
  "stderr_lines redirected = []" "devnull_lines redirected = []"
  "cerr_inserted redirected = []" "files_written redirected = []"
  "held redirected = []" "released redirected = []"
  by (simp_all add: redirected_def process_start_def)

lemma acquire_fields:
  "cerr_rdbuf (acquire h p) = cerr_rdbuf p" "stdout_lines (acquire h p) = stdout_lines p"
  "stderr_lines (acquire h p) = stderr_lines p" "devnull_lines (acquire h p) = devnull_lines p"
  "cerr_inserted (acquire h p) = cerr_inserted p" "files_written (acquire h p) = files_written p"
  "held (acquire h p) = h # held p" "released (acquire h p) = released p"
  by (simp_all add: acquire_def)

lemma with_buffers_fields:
  "cerr_rdbuf (with_buffers pf) = DevNullBuf" "stdout_lines (with_buffers pf) = []"
  "stderr_lines (with_buffers pf) = []" "devnull_lines (with_buffers pf) = []"
  "cerr_inserted (with_buffers pf) = []" "files_written (with_buffers pf) = []"
  "released (with_buffers pf) = []"
  by (simp_all add: with_buffers_def Let_def acquire_fields redirected_fields)

lemma reached_fields:
  "cerr_rdbuf (reached pf c) = DevNullBuf" "stdout_lines (reached pf c) = []"
  "stderr_lines (reached pf c) = []" "devnull_lines (reached pf c) = []"
  "cerr_inserted (reached pf c) = []" "files_written (reached pf c) = []"
  "released (reached pf c) = []"
  by (cases c; simp add: acquire_fields redirected_fields with_buffers_fields)+

lemma cerr_line_null:
  assumes "cerr_rdbuf p = DevNullBuf"
  shows "cerr_line l p = p\<lparr>devnull_lines := devnull_lines p @ [l],
                            cerr_inserted := cerr_inserted p @ [l]\<rparr>"
  using assms by (simp add: cerr_line_def put_line_def)

lemma main_failed:
  assumes "find (check_failed pf) checks = Some c"
  shows "main pf = (1, (reached pf c)\<lparr>devnull_lines := [diagnostic c],
                                        cerr_inserted := [diagnostic c]\<rparr>)"
  by (simp only: main_by_checks assms option.case cerr_line_null [OF reached_fields(1)]
        reached_fields append_Nil)

lemma find_no_gpu: "find (check_failed no_gpu) checks = Some Chk_clGetDeviceIDs"
  by (simp add: checks_def no_gpu_def all_succeed_def CL_SUCCESS_def CL_DEVICE_NOT_FOUND_def)

text \<open>
  At every early return both streams still have the buffer of \<^verbatim>\<open>devnull\<close>; the run that
  reaches line 146 has given them their own buffers back.
\<close>

lemma reached_cout: "cout_rdbuf (reached pf c) = DevNullBuf"
  by (cases c) (simp_all add: acquire_def redirected_def with_buffers_def Let_def)

lemma program_exit_failed:
  assumes "find (check_failed pf) checks = Some c"
  shows "program_exit pf = ExitUndefined"
  by (simp add: program_exit_def main_failed [OF assms] reached_cout)

lemma release_streams:
  "cout_rdbuf (release h p) = cout_rdbuf p" "cerr_rdbuf (release h p) = cerr_rdbuf p"
  by (simp_all add: release_def)

lemma finish_streams:
  "fst (finish StdoutBuf StderrBuf p) = 0"
  "cout_rdbuf (snd (finish StdoutBuf StderrBuf p)) = StdoutBuf"
  "cerr_rdbuf (snd (finish StdoutBuf StderrBuf p)) = StderrBuf"
  by (simp_all add: finish_def Let_def cout_line_def put_line_def)

lemma program_exit_success:
  assumes "find (check_failed pf) checks = None"
  shows "program_exit pf = Exited 0"
  by (simp only: program_exit_def main_by_checks assms option.case Let_def finish_streams)
     simp

lemma find_missing_file: "find (check_failed missing_file) checks = Some Chk_imread"
  by (simp add: checks_def missing_file_def all_succeed_def)

lemma find_no_platform: "find (check_failed no_platform) checks = Some Chk_clGetPlatformIDs"
  by (simp add: checks_def no_platform_def all_succeed_def CL_SUCCESS_def
        CL_PLATFORM_NOT_FOUND_KHR_def)

lemma find_all_succeed: "find (check_failed all_succeed) checks = None"
  by (simp add: checks_def all_succeed_def CL_SUCCESS_def)

section \<open>The kernel\<close>

text \<open>
  Claim C8. For every pixel the sum \<open>R + G + B\<close> is computed on the promoted \<^verbatim>\<open>int\<close>
  operands without wrap-around: its value is the sum of the three channel values and is at most
  765. The quotient by 3 lies between 0 and 255, and the \<^verbatim>\<open>uchar\<close> that receives it holds
  exactly that quotient; nothing wraps or saturates.
\<close>

theorem grayscale_no_overflow:
  "sint (channel_sum px) = uint (comp_x px) + uint (comp_y px) + uint (comp_z px)
   \<and> sint (channel_sum px) \<le> 765
   \<and> sint (grayscale_int px) = sint (channel_sum px) sdiv 3
   \<and> 0 \<le> sint (grayscale_int px) \<and> sint (grayscale_int px) \<le> 255
   \<and> uint (grayscale px) = sint (grayscale_int px)"
proof -
  let ?s = "uint (comp_x px) + uint (comp_y px) + uint (comp_z px)"
  note sb = uchar_sum_bounds [of "comp_x px" "comp_y px" "comp_z px"]
  have q: "?s sdiv 3 = ?s div 3"
    using sb(1) by (simp add: signed_divide_int_def sgn_if)
  show ?thesis
    using sb(2) grayscale_int_range [of px]
    by (simp only: sint_channel_sum sint_grayscale_int uint_grayscale q)
qed

text \<open>
  Claim C1, as amended. Let \<open>W \<ge> 1\<close> and \<open>H \<ge> 1\<close> be values of \<^verbatim>\<open>int\<close> (below \<open>2\<^sup>3\<^sup>1\<close>)
  with \<open>W * H \<le> 2\<^sup>3\<^sup>1\<close>, so that every pixel index fits the kernel's \<^verbatim>\<open>int index\<close>. For
  every input buffer of length \<open>W * H * 4\<close>, whatever the output buffer held before and in
  whatever order the device runs the work-items, the run completes, the buffer read back has
  the length of the input, and for every pixel index \<open>i\<close> its three colour bytes equal
  \<open>(in[4i] + in[4i+1] + in[4i+2]) / 3\<close> in integer arithmetic truncated toward zero, and its
  alpha byte is the input's.
\<close>

theorem readback_is_channel_mean:
  fixes W H :: nat
  assumes "1 \<le> W" "1 \<le> H"
    and "W < 2147483648" "H < 2147483648" "W * H \<le> 2147483648"
    and "length inp = W * H * 4"
    and "ndrange_schedule (globalWorkSize (of_nat W) (of_nat H)) sched"
  shows "\<exists>r. grayscale_on_device (rgba_mat W H inp) junk sched = Inr r
           \<and> length (data (readback r)) = length inp
           \<and> (\<forall>i<W * H.
                 uint (data (readback r) ! (4 * i)) =
                   (uint (inp ! (4 * i)) + uint (inp ! (4 * i + 1)) + uint (inp ! (4 * i + 2))) sdiv 3
                 \<and> data (readback r) ! (4 * i + 1) = data (readback r) ! (4 * i)
                 \<and> data (readback r) ! (4 * i + 2) = data (readback r) ! (4 * i)
                 \<and> data (readback r) ! (4 * i + 3) = inp ! (4 * i + 3))"
proof -
  have len: "length inp = 4 * (W * H)" using assms(6) by simp
  have sched: "set sched = {0..<W} \<times> {0..<H}"
    using assms(3,4,7) by (rule schedule_set)
  define r where "r = \<lparr>device_memory = [inputBuffer \<mapsto> inp, outputBuffer \<mapsto> spec_gray_image inp],
             host_input = rgba_mat W H inp, readback = rgba_mat W H (spec_gray_image inp)\<rparr>"
  have run: "grayscale_on_device (rgba_mat W H inp) junk sched = Inr r"
    unfolding r_def using assms(3,4,5) len sched by (rule device_in_range)
  have d: "data (readback r) = spec_gray_image inp" by (simp add: r_def rgba_mat_def)
  have px: "uint (spec_gray_image inp ! (4 * i)) =
              (uint (inp ! (4 * i)) + uint (inp ! (4 * i + 1)) + uint (inp ! (4 * i + 2))) sdiv 3
            \<and> spec_gray_image inp ! (4 * i + 1) = spec_gray_image inp ! (4 * i)
            \<and> spec_gray_image inp ! (4 * i + 2) = spec_gray_image inp ! (4 * i)
            \<and> spec_gray_image inp ! (4 * i + 3) = inp ! (4 * i + 3)" if "i < W * H" for i
  proof -
    have b: "4 * i < length inp" "4 * i + 1 < length inp" "4 * i + 2 < length inp"
      "4 * i + 3 < length inp" using that len by simp_all
    have m4: "(4 * i) mod 4 = 0" "(4 * i + 1) mod 4 = 1" "(4 * i + 2) mod 4 = 2"
      "(4 * i + 3) mod 4 = 3" by presburger+
    have d4: "(4 * i) div 4 = i" "(4 * i + 1) div 4 = i" "(4 * i + 2) div 4 = i" by presburger+
    let ?px = "uchar4 (inp ! (4 * i)) (inp ! (4 * i + 1)) (inp ! (4 * i + 2)) (inp ! (4 * i + 3))"
    have g: "spec_gray_byte inp (4 * i) = grayscale ?px"
      "spec_gray_byte inp (4 * i + 1) = grayscale ?px"
      "spec_gray_byte inp (4 * i + 2) = grayscale ?px"
      by (simp_all only: spec_gray_byte_def m4 d4 grayscale_spec uchar4.sel) simp_all
    have a: "spec_gray_byte inp (4 * i + 3) = inp ! (4 * i + 3)"
      by (simp only: spec_gray_byte_def m4) simp
    have u: "uint (grayscale ?px) =
        (uint (inp ! (4 * i)) + uint (inp ! (4 * i + 1)) + uint (inp ! (4 * i + 2))) sdiv 3"
    proof -
      have "0 \<le> uint (inp ! (4 * i)) + uint (inp ! (4 * i + 1)) + uint (inp ! (4 * i + 2))"
        by simp
      then have "(uint (inp ! (4 * i)) + uint (inp ! (4 * i + 1)) + uint (inp ! (4 * i + 2))) sdiv 3
        = (uint (inp ! (4 * i)) + uint (inp ! (4 * i + 1)) + uint (inp ! (4 * i + 2))) div 3"
        by (simp add: signed_divide_int_def sgn_if)
      then show ?thesis by (simp only: uint_grayscale uchar4.sel)
    qed
    show ?thesis
      by (simp only: spec_gray_image_nth [OF b(1)] spec_gray_image_nth [OF b(2)]
            spec_gray_image_nth [OF b(3)] spec_gray_image_nth [OF b(4)] g a u)
  qed
  have "length (data (readback r)) = length inp"
    unfolding d by (rule length_spec_gray_image)
  moreover have "\<forall>i<W * H.
                 uint (data (readback r) ! (4 * i)) =
                   (uint (inp ! (4 * i)) + uint (inp ! (4 * i + 1)) + uint (inp ! (4 * i + 2))) sdiv 3
                 \<and> data (readback r) ! (4 * i + 1) = data (readback r) ! (4 * i)
                 \<and> data (readback r) ! (4 * i + 2) = data (readback r) ! (4 * i)
                 \<and> data (readback r) ! (4 * i + 3) = inp ! (4 * i + 3)"
    unfolding d using px by blast
  ultimately show ?thesis using run by blast
qed

text \<open>
  The two-pixel row \<open>(30, 60, 90, 255), (255, 0, 0, 10)\<close> of the specification's scenario S4:
  the bytes read back start with 60 and 85 and keep the alpha bytes 255 and 10.
\<close>

theorem readback_is_channel_mean_witness:
  "\<exists>r. grayscale_on_device (rgba_mat 2 1 [30, 60, 90, 255, 255, 0, 0, 10]) zero_fill
            (row_major (2, 1)) = Inr r
       \<and> length (data (readback r)) = 8
       \<and> uint (data (readback r) ! 0) = 60 \<and> uint (data (readback r) ! 4) = 85
       \<and> data (readback r) ! 3 = 255 \<and> data (readback r) ! 7 = 10"
proof -
  have s: "ndrange_schedule (globalWorkSize (of_nat 2) (of_nat 1)) (row_major (2, 1))"
    using ndrange_schedule_row_major [of "(2, 1)"] by (simp add: globalWorkSize_def)
  have l: "length [30, 60, 90, 255, 255, 0, 0, 10 :: uchar] = 2 * 1 * 4" by simp
  from readback_is_channel_mean [of 2 1 "[30, 60, 90, 255, 255, 0, 0, 10]" "row_major (2, 1)" zero_fill, OF _ _ _ _ _ l s]
  obtain r where
    r: "grayscale_on_device (rgba_mat 2 1 [30, 60, 90, 255, 255, 0, 0, 10]) zero_fill
            (row_major (2, 1)) = Inr r"
    and n: "length (data (readback r)) = length [30, 60, 90, 255, 255, 0, 0, 10 :: uchar]"
    and p: "\<forall>i<2 * 1.
                 uint (data (readback r) ! (4 * i)) =
                   (uint ([30, 60, 90, 255, 255, 0, 0, 10 :: uchar] ! (4 * i))
                    + uint ([30, 60, 90, 255, 255, 0, 0, 10 :: uchar] ! (4 * i + 1))
                    + uint ([30, 60, 90, 255, 255, 0, 0, 10 :: uchar] ! (4 * i + 2))) sdiv 3
                 \<and> data (readback r) ! (4 * i + 1) = data (readback r) ! (4 * i)
                 \<and> data (readback r) ! (4 * i + 2) = data (readback r) ! (4 * i)
                 \<and> data (readback r) ! (4 * i + 3) = [30, 60, 90, 255, 255, 0, 0, 10 :: uchar] ! (4 * i + 3)"
    by auto
  have p0: "uint (data (readback r) ! 0) = 60" "data (readback r) ! 3 = 255"
    using p [rule_format, of 0] by (simp_all add: signed_divide_int_def)
  have p1: "uint (data (readback r) ! 4) = 85" "data (readback r) ! 7 = 10"
    using p [rule_format, of 1] by (simp_all add: signed_divide_int_def)
  show ?thesis using r n p0 p1 by simp
qed

text \<open>
  Without the bound the statement fails. An image 2 pixels wide and 1073741825 pixels high has
  \<open>2\<^sup>3\<^sup>1 + 2\<close> pixels and a buffer of \<open>W * H * 4 = 8589934600\<close> bytes. The work-item with
  the global id \<open>(0, 1073741824)\<close> computes \<open>index = 1073741824 * 2 + 0\<close>, which is \<open>2\<^sup>3\<^sup>1\<close> and
  does not fit \<^verbatim>\<open>int\<close>: as a 32-bit value it is \<open>- 2\<^sup>3\<^sup>1\<close>, and \<^verbatim>\<open>inputImage[index]\<close> is an
  access outside the buffer. The run has no output buffer.
\<close>

theorem readback_oversize_image_counterexample:
  "grayscale_on_device (rgba_mat 2 1073741825 (replicate 8589934600 0)) zero_fill
     (row_major (globalWorkSize 2 1073741825)) = Inl MemoryFault"
proof -
  have g: "globalWorkSize 2 1073741825 = (2, 1073741825)"
    using globalWorkSize_of_nat [of 2 1073741825] by simp
  have s: "set (row_major (globalWorkSize 2 1073741825)) = {0..<2} \<times> {0..<1073741825}"
    using ndrange_schedule_row_major [of "(2, 1073741825)"]
    by (simp add: g ndrange_schedule_def)
  show ?thesis
    by (rule device_out_of_range [OF _ _ _ s]) simp_all
qed

text \<open>
  Claim C5, as amended. Under the same bounds on \<open>W\<close> and \<open>H\<close> as for C1: if every pixel of
  the input buffer has \<open>R = G = B\<close>, the run completes and the image read back is the input
  image, byte for byte, alpha included.
\<close>

theorem gray_input_unchanged:
  fixes W H :: nat
  assumes "1 \<le> W" "1 \<le> H"
    and "W < 2147483648" "H < 2147483648" "W * H \<le> 2147483648"
    and "length inp = W * H * 4"
    and "\<forall>i<W * H. inp ! (4 * i) = inp ! (4 * i + 1) \<and> inp ! (4 * i + 1) = inp ! (4 * i + 2)"
    and "ndrange_schedule (globalWorkSize (of_nat W) (of_nat H)) sched"
  shows "\<exists>r. grayscale_on_device (rgba_mat W H inp) junk sched = Inr r
           \<and> readback r = rgba_mat W H inp"
proof -
  have len: "length inp = 4 * (W * H)" using assms(6) by simp
  have sched: "set sched = {0..<W} \<times> {0..<H}"
    using assms(3,4,8) by (rule schedule_set)
  have same: "spec_gray_image inp = inp"
    using len assms(7) by (intro spec_gray_image_gray) blast+
  have "grayscale_on_device (rgba_mat W H inp) junk sched =
           Inr \<lparr>device_memory = [inputBuffer \<mapsto> inp, outputBuffer \<mapsto> spec_gray_image inp],
                host_input = rgba_mat W H inp,
                readback = rgba_mat W H (spec_gray_image inp)\<rparr>"
    using assms(3,4,5) len sched by (rule device_in_range)
  then show ?thesis unfolding same by simp
qed

text \<open>A column of the two gray pixels \<open>(7, 7, 7, 255)\<close> and \<open>(200, 200, 200, 0)\<close>.\<close>

theorem gray_input_unchanged_witness:
  "\<exists>r. grayscale_on_device (rgba_mat 1 2 [7, 7, 7, 255, 200, 200, 200, 0]) ones_fill
            (row_major (1, 2)) = Inr r
       \<and> readback r = rgba_mat 1 2 [7, 7, 7, 255, 200, 200, 200, 0]"
proof -
  have s: "ndrange_schedule (globalWorkSize (of_nat 1) (of_nat 2)) (row_major (1, 2))"
    using ndrange_schedule_row_major [of "(1, 2)"] by (simp add: globalWorkSize_def)
  have l: "length [7, 7, 7, 255, 200, 200, 200, 0 :: uchar] = 1 * 2 * 4" by simp
  have g: "\<forall>i<1 * 2. [7, 7, 7, 255, 200, 200, 200, 0 :: uchar] ! (4 * i)
                       = [7, 7, 7, 255, 200, 200, 200, 0] ! (4 * i + 1)
                    \<and> [7, 7, 7, 255, 200, 200, 200, 0 :: uchar] ! (4 * i + 1)
                       = [7, 7, 7, 255, 200, 200, 200, 0] ! (4 * i + 2)"
    by (simp add: less_Suc_eq numeral_2_eq_2)
  show ?thesis
    by (rule gray_input_unchanged [OF _ _ _ _ _ l g s]) simp_all
qed

text \<open>
  Without the bound the statement fails: a uniformly gray image of 65536 by 32769 pixels (every
  byte is 128, the buffer has \<open>65536 * 32769 * 4 = 8590196736\<close> bytes) has more than \<open>2\<^sup>3\<^sup>1\<close>
  pixels. The work-item \<open>(0, 32768)\<close> computes \<open>index = 32768 * 65536 = 2\<^sup>3\<^sup>1\<close>, which wraps
  to a negative \<^verbatim>\<open>int\<close>; the run faults and returns no buffer.
\<close>

theorem gray_oversize_image_counterexample:
  "grayscale_on_device (rgba_mat 65536 32769 (replicate 8590196736 128)) zero_fill
     (row_major (globalWorkSize 65536 32769)) = Inl MemoryFault"
proof -
  have g: "globalWorkSize 65536 32769 = (65536, 32769)"
    using globalWorkSize_of_nat [of 65536 32769] by simp
  have s: "set (row_major (globalWorkSize 65536 32769)) = {0..<65536} \<times> {0..<32769}"
    using ndrange_schedule_row_major [of "(65536, 32769)"]
    by (simp add: g ndrange_schedule_def)
  show ?thesis
    by (rule device_out_of_range [OF _ _ _ s]) simp_all
qed

text \<open>
  Claim C6, as amended. Under the same bounds on \<open>W\<close> and \<open>H\<close> as for C1, and for every input
  buffer of length \<open>W * H * 4\<close>: two runs on that input, whatever the output buffer held before
  each of them and in whatever order each of them executes the work-items, both complete, and
  they end with the same device memory and the same bytes read back.
\<close>

theorem readback_deterministic:
  fixes W H :: nat
  assumes "1 \<le> W" "1 \<le> H"
    and "W < 2147483648" "H < 2147483648" "W * H \<le> 2147483648"
    and "length inp = W * H * 4"
    and "ndrange_schedule (globalWorkSize (of_nat W) (of_nat H)) sched1"
    and "ndrange_schedule (globalWorkSize (of_nat W) (of_nat H)) sched2"
  shows "\<exists>r. grayscale_on_device (rgba_mat W H inp) junk1 sched1 = Inr r
           \<and> grayscale_on_device (rgba_mat W H inp) junk2 sched2 = Inr r"
proof -
  have len: "length inp = 4 * (W * H)" using assms(6) by simp
  have s1: "set sched1 = {0..<W} \<times> {0..<H}" using assms(3,4,7) by (rule schedule_set)
  have s2: "set sched2 = {0..<W} \<times> {0..<H}" using assms(3,4,8) by (rule schedule_set)
  show ?thesis
    using device_in_range [OF assms(3,4,5) len s1, of junk1]
      device_in_range [OF assms(3,4,5) len s2, of junk2]
    by blast
qed

text \<open>
  Scenario S4 run twice: once over an output buffer of zeros in row-major order, once over an
  output buffer of 255s in the opposite order.
\<close>

theorem readback_deterministic_witness:
  "\<exists>r. grayscale_on_device (rgba_mat 2 1 [30, 60, 90, 255, 255, 0, 0, 10]) zero_fill
            [(0, 0), (1, 0)] = Inr r
       \<and> grayscale_on_device (rgba_mat 2 1 [30, 60, 90, 255, 255, 0, 0, 10]) ones_fill
            [(1, 0), (0, 0)] = Inr r"
proof -
  have g: "globalWorkSize (of_nat 2) (of_nat 1) = (2, 1)" by (simp add: globalWorkSize_def)
  have s1: "ndrange_schedule (globalWorkSize (of_nat 2) (of_nat 1)) [(0, 0), (1, 0)]"
    unfolding g by (auto simp: ndrange_schedule_def)
  have s2: "ndrange_schedule (globalWorkSize (of_nat 2) (of_nat 1)) [(1, 0), (0, 0)]"
    unfolding g by (auto simp: ndrange_schedule_def)
  have l: "length [30, 60, 90, 255, 255, 0, 0, 10 :: uchar] = 2 * 1 * 4" by simp
  show ?thesis
    by (rule readback_deterministic [OF _ _ _ _ _ l s1 s2]) simp_all
qed

text \<open>
  Without the bound the statement fails. An image of 32768 by 65537 pixels has \<open>2\<^sup>3\<^sup>1 + 32768\<close>
  pixels and a buffer of \<open>32768 * 65537 * 4 = 8590065664\<close> bytes. The work-item \<open>(0, 65536)\<close>
  computes \<open>index = 65536 * 32768 = 2\<^sup>3\<^sup>1\<close>, which wraps to \<open>- 2\<^sup>3\<^sup>1\<close>, and accesses memory
  outside both buffers. Neither of the two runs below, one over an output buffer of zeros and one
  over an output buffer of 255s, has a result that the program determines. Where the device
  stops the work-item there is no readback at all; where it does not, no work-item writes the
  pixels from index \<open>2\<^sup>3\<^sup>1\<close> on, and what is read back there is what the output buffer held
  before, which differs between the two runs.
\<close>

theorem deterministic_oversize_image_counterexample:
  "grayscale_on_device (rgba_mat 32768 65537 (replicate 8590065664 0)) zero_fill
     (row_major (globalWorkSize 32768 65537)) = Inl MemoryFault
   \<and> grayscale_on_device (rgba_mat 32768 65537 (replicate 8590065664 0)) ones_fill
     (row_major (globalWorkSize 32768 65537)) = Inl MemoryFault"
proof -
  have g: "globalWorkSize 32768 65537 = (32768, 65537)"
    using globalWorkSize_of_nat [of 32768 65537] by simp
  have s: "set (row_major (globalWorkSize 32768 65537)) = {0..<32768} \<times> {0..<65537}"
    using ndrange_schedule_row_major [of "(32768, 65537)"]
    by (simp add: g ndrange_schedule_def)
  have "grayscale_on_device (rgba_mat 32768 65537 (replicate 8590065664 0)) junk
     (row_major (globalWorkSize 32768 65537)) = Inl MemoryFault" for junk
    by (rule device_out_of_range [OF _ _ _ s]) simp_all
  then show ?thesis by simp
qed

text \<open>
  Claim C10, as amended. Under the same bounds on \<open>W\<close> and \<open>H\<close> as for C1, for every input
  buffer of length \<open>W * H * 4\<close>, every first content of the output buffer and every schedule:
  the run completes; the device input buffer holds the bytes of the host image when it is
  created and the same bytes after the dispatch; and the host image is the one that was passed
  in. Within the bounds every store of the kernel stays inside the output buffer, which is a
  buffer of its own.
\<close>

theorem input_buffer_unchanged:
  fixes W H :: nat
  assumes "1 \<le> W" "1 \<le> H"
    and "W < 2147483648" "H < 2147483648" "W * H \<le> 2147483648"
    and "length inp = W * H * 4"
    and "ndrange_schedule (globalWorkSize (of_nat W) (of_nat H)) sched"
  shows "\<exists>r. grayscale_on_device (rgba_mat W H inp) junk sched = Inr r
           \<and> create_buffers (rgba_mat W H inp) junk inputBuffer = Some inp
           \<and> device_memory r inputBuffer = Some inp
           \<and> host_input r = rgba_mat W H inp"
proof -
  have len: "length inp = 4 * (W * H)" using assms(6) by simp
  have sched: "set sched = {0..<W} \<times> {0..<H}"
    using assms(3,4,7) by (rule schedule_set)
  define r where "r = \<lparr>device_memory = [inputBuffer \<mapsto> inp, outputBuffer \<mapsto> spec_gray_image inp],
             host_input = rgba_mat W H inp, readback = rgba_mat W H (spec_gray_image inp)\<rparr>"
  have run: "grayscale_on_device (rgba_mat W H inp) junk sched = Inr r"
    unfolding r_def using assms(3,4,5) len sched by (rule device_in_range)
  have ne: "inputBuffer \<noteq> outputBuffer" by (simp add: inputBuffer_def outputBuffer_def)
  have before: "create_buffers (rgba_mat W H inp) junk inputBuffer = Some inp"
    using ne len by (simp add: create_buffers_def rgba_mat_def buffer_bytes_of_nat [OF assms(3,4)])
  have after: "device_memory r inputBuffer = Some inp"
    using ne by (simp add: r_def)
  have host: "host_input r = rgba_mat W H inp" by (simp add: r_def)
  show ?thesis using run before after host by blast
qed

text \<open>Scenario S4: the run completes and the input bytes are still in the input buffer.\<close>

theorem input_buffer_unchanged_witness:
  "\<exists>r. grayscale_on_device (rgba_mat 2 1 [30, 60, 90, 255, 255, 0, 0, 10]) zero_fill
            (row_major (2, 1)) = Inr r
       \<and> create_buffers (rgba_mat 2 1 [30, 60, 90, 255, 255, 0, 0, 10]) zero_fill inputBuffer
            = Some [30, 60, 90, 255, 255, 0, 0, 10]
       \<and> device_memory r inputBuffer = Some [30, 60, 90, 255, 255, 0, 0, 10]
       \<and> host_input r = rgba_mat 2 1 [30, 60, 90, 255, 255, 0, 0, 10]"
proof -
  have s: "ndrange_schedule (globalWorkSize (of_nat 2) (of_nat 1)) (row_major (2, 1))"
    using ndrange_schedule_row_major [of "(2, 1)"] by (simp add: globalWorkSize_def)
  have l: "length [30, 60, 90, 255, 255, 0, 0, 10 :: uchar] = 2 * 1 * 4" by simp
  show ?thesis
    by (rule input_buffer_unchanged [OF _ _ _ _ _ l s]) simp_all
qed

text \<open>
  Without the bound the statement fails. A square image of 46341 by 46341 pixels has
  \<open>2147488281\<close> pixels, more than \<open>2\<^sup>3\<^sup>1\<close>, and a buffer of \<open>8589953124\<close> bytes. The work-item
  \<open>(41708, 46340)\<close> computes \<open>index = 46340 * 46341 + 41708 = 2\<^sup>3\<^sup>1\<close>, which wraps to
  \<open>- 2\<^sup>3\<^sup>1\<close>: the store of line 20 goes to an address \<open>2\<^sup>3\<^sup>3\<close> bytes before the output
  buffer, outside of it, and the program does not determine what memory it changes. The run
  has no state after it in which the input buffer is known to be what it was.
\<close>

theorem input_buffer_oversize_image_counterexample:
  "grayscale_on_device (rgba_mat 46341 46341 (replicate 8589953124 0)) zero_fill
     (row_major (globalWorkSize 46341 46341)) = Inl MemoryFault"
proof -
  have g: "globalWorkSize 46341 46341 = (46341, 46341)"
    using globalWorkSize_of_nat [of 46341 46341] by simp
  have s: "set (row_major (globalWorkSize 46341 46341)) = {0..<46341} \<times> {0..<46341}"
    using ndrange_schedule_row_major [of "(46341, 46341)"]
    by (simp add: g ndrange_schedule_def)
  show ?thesis
    by (rule device_out_of_range [OF _ _ _ s]) simp_all
qed

section \<open>Failures of the host program\<close>

text \<open>
  On every early return of \<^verbatim>\<open>main\<close> the two streams are still redirected to the buffer of the
  local \<^verbatim>\<open>devnull\<close>; only the run that reaches lines 141 and 142 undoes the redirection. The
  three statements that follow show what this one omission does at three failing inputs.
\<close>

text \<open>
  Claim C3 at a failing input. On a platform whose first platform has no GPU, the device check
  of line 58 fires. The diagnostic of line 59 goes to the null sink: no line reaches the error
  stream of the process, and none its standard output. \<^verbatim>\<open>main\<close> returns 1 with both streams
  still on the buffer of \<^verbatim>\<open>devnull\<close>, so the process has no defined exit code.
\<close>

theorem no_gpu_diagnostic_lost:
  "check_failed no_gpu Chk_clGetDeviceIDs
   \<and> stderr_lines (snd (main no_gpu)) = []
   \<and> stdout_lines (snd (main no_gpu)) = []
   \<and> devnull_lines (snd (main no_gpu)) = [''Failed to get the device ID.'']
   \<and> program_exit no_gpu = ExitUndefined"
proof -
  have "check_failed no_gpu Chk_clGetDeviceIDs"
    by (simp add: no_gpu_def all_succeed_def CL_SUCCESS_def CL_DEVICE_NOT_FOUND_def)
  moreover have "stderr_lines (snd (main no_gpu)) = []" "stdout_lines (snd (main no_gpu)) = []"
    "devnull_lines (snd (main no_gpu)) = [''Failed to get the device ID.'']"
    by (simp_all add: main_failed [OF find_no_gpu] redirected_fields)
  moreover have "program_exit no_gpu = ExitUndefined"
    using find_no_gpu by (rule program_exit_failed)
  ultimately show ?thesis by simp
qed

text \<open>
  Claim C7 at a failing input. When the input file is missing, \<^verbatim>\<open>cv::imread\<close> returns an
  empty image and \<^verbatim>\<open>main\<close> leaves at line 37. No file is written: \<^verbatim>\<open>cv::imwrite\<close> is not
  reached. But the diagnostic of line 36 goes to the null sink, no line reaches the error stream
  or the standard output of the process, and the process has no defined exit code.
\<close>

theorem missing_file_diagnostic_lost:
  "imread_empty missing_file
   \<and> files_written (snd (main missing_file)) = []
   \<and> stderr_lines (snd (main missing_file)) = []
   \<and> stdout_lines (snd (main missing_file)) = []
   \<and> devnull_lines (snd (main missing_file))
        = [''Couldn't find the input image with specified link.'']
   \<and> program_exit missing_file = ExitUndefined"
proof -
  have "imread_empty missing_file" by (simp add: missing_file_def)
  moreover have "files_written (snd (main missing_file)) = []"
    "stderr_lines (snd (main missing_file)) = []" "stdout_lines (snd (main missing_file)) = []"
    "devnull_lines (snd (main missing_file))
        = [''Couldn't find the input image with specified link.'']"
    by (simp_all add: main_failed [OF find_missing_file] redirected_fields)
  moreover have "program_exit missing_file = ExitUndefined"
    using find_missing_file by (rule program_exit_failed)
  ultimately show ?thesis by simp
qed

text \<open>
  Claim C9 at a failing input. When no OpenCL platform is installed, \<^verbatim>\<open>main\<close> executes the
  \<^verbatim>\<open>return 1\<close> of line 53 while \<^verbatim>\<open>std::cout\<close> and \<^verbatim>\<open>std::cerr\<close> still have the buffer of
  \<^verbatim>\<open>devnull\<close>: the process has no defined exit code, where the claim says exactly 1. The run in
  which every call succeeds restores both streams and exits with 0.
\<close>

theorem no_platform_exit_undefined:
  "check_failed no_platform Chk_clGetPlatformIDs
   \<and> fst (main no_platform) = 1
   \<and> cout_rdbuf (snd (main no_platform)) = DevNullBuf
   \<and> cerr_rdbuf (snd (main no_platform)) = DevNullBuf
   \<and> program_exit no_platform = ExitUndefined
   \<and> program_exit all_succeed = Exited 0"
proof -
  have "check_failed no_platform Chk_clGetPlatformIDs"
    by (simp add: no_platform_def all_succeed_def CL_SUCCESS_def CL_PLATFORM_NOT_FOUND_KHR_def)
  moreover have "fst (main no_platform) = 1"
    "cout_rdbuf (snd (main no_platform)) = DevNullBuf"
    "cerr_rdbuf (snd (main no_platform)) = DevNullBuf"
    by (simp_all add: main_failed [OF find_no_platform] redirected_def process_start_def)
  moreover have "program_exit no_platform = ExitUndefined"
    using find_no_platform by (rule program_exit_failed)
  moreover have "program_exit all_succeed = Exited 0"
    using find_all_succeed by (rule program_exit_success)
  ultimately show ?thesis by simp
qed

text \<open>
  Claim C2 at a failing input. When \<^verbatim>\<open>clEnqueueNDRangeKernel\<close> is refused, \<^verbatim>\<open>main\<close>
  returns 1 while it still holds all six handles (output buffer, input buffer, kernel, program,
  queue, context, most recent first) and has released none: the \<^verbatim>\<open>return 1\<close> of line 114
  leaves before the cleanup of lines 133 to 138, which only the successful run reaches.
\<close>

theorem enqueue_failure_leaks_handles:
  "fst (main enqueue_fails) = 1
   \<and> held (snd (main enqueue_fails)) =
       [H_outputBuffer, H_inputBuffer, H_clKernel, H_program, H_cmdQueue, H_context]
   \<and> released (snd (main enqueue_fails)) = []"
proof -
  have "find (check_failed enqueue_fails) checks = Some Chk_clEnqueueNDRangeKernel"
    by (simp add: checks_def enqueue_fails_def all_succeed_def CL_SUCCESS_def
          CL_OUT_OF_RESOURCES_def)
  then show ?thesis
    by (simp add: main_failed with_buffers_def acquire_fields redirected_fields
          enqueue_fails_def all_succeed_def CL_SUCCESS_def)
qed

text \<open>
  Claim C4 at a failing input. When the creation of the input buffer fails with
  \<^verbatim>\<open>CL_MEM_OBJECT_ALLOCATION_FAILURE\<close> and every other call succeeds, \<^verbatim>\<open>main\<close> returns 0,
  prints no diagnostic and writes the output file: the status stored in \<^verbatim>\<open>errorVar\<close> by
  \<^verbatim>\<open>clCreateBuffer\<close> is overwritten by \<^verbatim>\<open>clSetKernelArg\<close> before any test of it.
\<close>

theorem input_alloc_failure_ignored:
  "clCreateBuffer_input_err input_alloc_fails \<noteq> CL_SUCCESS
   \<and> fst (main input_alloc_fails) = 0
   \<and> cerr_inserted (snd (main input_alloc_fails)) = []
   \<and> files_written (snd (main input_alloc_fails)) = [''GreyScaledImage.jpg'']"
proof -
  have "find (check_failed input_alloc_fails) checks = None"
    by (simp add: checks_def input_alloc_fails_def all_succeed_def CL_SUCCESS_def)
  then show ?thesis
    by (simp add: main_by_checks finish_def cleanup_def release_def cout_line_def put_line_def
          with_buffers_fields Let_def input_alloc_fails_def all_succeed_def CL_SUCCESS_def
          CL_MEM_OBJECT_ALLOCATION_FAILURE_def)
qed

end
